theory Spec2Isabelle
  imports Main
begin

section \<open>The browser as the script sees it\<close>

text \<open>
  \<^verbatim>\<open>app.js\<close> drives one Playwright page. Every tool builds locators (lazily: building one
  never touches the page), then awaits \<^verbatim>\<open>count\<close>, \<^verbatim>\<open>waitFor\<close>, \<^verbatim>\<open>fill\<close> or
  \<^verbatim>\<open>click\<close> on them. The embedding keeps the locator expressions as the script writes
  them and takes the browser itself as a parameter: a record of the awaited operations,
  each a function of an abstract world \<open>'w\<close> (page, file system, clock).
\<close>

text \<open>A locator argument is a plain string or \<^verbatim>\<open>new RegExp(source, flags)\<close>.\<close>

datatype pattern = Str string | RegExp string string

datatype locator =
    Page
  | Locator locator string
  | Nth locator nat
  | First locator
  | GetByLabel locator pattern
  | GetByPlaceholder locator pattern
  | GetByRole locator string pattern
  | Filter locator

text \<open>
  \<open>Locator p css\<close> is \<^verbatim>\<open>p.locator(css)\<close>, \<open>Nth p i\<close> is \<^verbatim>\<open>p.nth(i)\<close>, \<open>First p\<close> is
  \<^verbatim>\<open>p.first()\<close>, \<open>GetByRole p role name\<close> is \<^verbatim>\<open>p.getByRole(role, { name })\<close> and
  \<open>Filter p\<close> is \<^verbatim>\<open>p.filter({ hasText: undefined })\<close>. The options
  \<^verbatim>\<open>{ exact: false }\<close> and \<^verbatim>\<open>{ hasText: undefined }\<close> of \<^verbatim>\<open>fill_field\<close> are
  Playwright's defaults and are not recorded.
\<close>

text \<open>What the script awaits on the browser, in the order it does.\<close>

datatype call =
    Count locator
  | WaitFor locator nat
  | Fill locator string
  | Click locator
  | Screenshot
  | WriteFile string

datatype error =
    Error string
  | SyntaxError string
  | Rejected call

text \<open>
  \<open>Error msg\<close> is the script's own \<^verbatim>\<open>throw new Error(msg)\<close>, \<open>SyntaxError src\<close> what
  \<^verbatim>\<open>new RegExp(src, flags)\<close> throws on a malformed pattern, and \<open>Rejected c\<close> an awaited
  browser or file operation that rejected outside every \<^verbatim>\<open>try\<close>.
\<close>

type_synonym buffer = string

record 'w browser =
  regexp_ok :: "string \<Rightarrow> bool"
  count :: "locator \<Rightarrow> 'w \<Rightarrow> nat option"
  waitFor :: "locator \<Rightarrow> nat \<Rightarrow> 'w \<Rightarrow> bool"
  fill :: "locator \<Rightarrow> string \<Rightarrow> 'w \<Rightarrow> bool \<times> 'w"
  click :: "locator \<Rightarrow> 'w \<Rightarrow> bool \<times> 'w"
  screenshot :: "'w \<Rightarrow> buffer option"
  now :: "'w \<Rightarrow> nat"
  writeFile :: "string \<Rightarrow> buffer \<Rightarrow> 'w \<Rightarrow> bool \<times> 'w"

text \<open>
  \<open>regexp_ok src\<close>: the host's RegExp constructor accepts \<open>src\<close>.
  \<open>count l w\<close>: \<^verbatim>\<open>await l.count()\<close>, \<open>None\<close> when it rejects.
  \<open>waitFor l ms w\<close>: \<^verbatim>\<open>await l.waitFor({ state: "visible", timeout: ms })\<close> resolves.
  \<open>fill\<close>, \<open>click\<close>, \<open>writeFile\<close>: whether the operation resolved, and the world after it.
  \<open>screenshot w\<close>: the bytes of \<^verbatim>\<open>await page.screenshot()\<close>, \<open>None\<close> when it rejects.
  \<open>now w\<close>: \<^verbatim>\<open>Date.now()\<close>.
\<close>

definition new_RegExp :: "'w browser \<Rightarrow> string \<Rightarrow> string \<Rightarrow> error + pattern" where
  "new_RegExp env src flags =
     (if regexp_ok env src then Inr (RegExp src flags) else Inl (SyntaxError src))"

text \<open>The value a tool returns: \<^verbatim>\<open>{ success: true }\<close>, with a screenshot file or without.\<close>

record tool_result =
  success :: bool
  screenshot_file :: "string option"

section \<open>One guarded attempt, and the loop over attempts\<close>

text \<open>
  \<^verbatim>\<open>fill_field\<close>, \<^verbatim>\<open>click_by_text\<close> and \<^verbatim>\<open>tryFillByKeywords\<close> share this body:
  \<^verbatim>\<open>
  for (const getLocator of attempts) {
    try {
      const locator = await getLocator();
      await locator.waitFor({ state: "visible", timeout });
      await locator.fill(value);            // or locator.click()
      return ...;
    } catch {}
  }
  \<close>
  A \<open>getLocator\<close> closure is modelled by what it returns or throws.
\<close>

datatype action = DoFill string | DoClick

definition perform :: "'w browser \<Rightarrow> action \<Rightarrow> locator \<Rightarrow> 'w \<Rightarrow> (bool \<times> 'w) \<times> call" where
  "perform env act l w =
     (case act of
        DoFill v \<Rightarrow> (fill env l v w, Fill l v)
      | DoClick \<Rightarrow> (click env l w, Click l))"

definition attempt ::
  "'w browser \<Rightarrow> nat \<Rightarrow> action \<Rightarrow> error + locator \<Rightarrow> 'w \<Rightarrow> bool \<times> call list \<times> 'w" where
  "attempt env timeout act getLocator w =
     (case getLocator of
        Inl e \<Rightarrow> (False, [], w)
      | Inr l \<Rightarrow>
          if \<not> waitFor env l timeout w then (False, [WaitFor l timeout], w)
          else (case perform env act l w of
                  ((ok, w'), c) \<Rightarrow> (ok, [WaitFor l timeout, c], w')))"

fun attempt_loop ::
  "'w browser \<Rightarrow> nat \<Rightarrow> action \<Rightarrow> (error + locator) list \<Rightarrow> 'w \<Rightarrow> bool \<times> call list \<times> 'w" where
  "attempt_loop env timeout act [] w = (False, [], w)"
| "attempt_loop env timeout act (g # gs) w =
     (case attempt env timeout act g w of
        (True, cs, w') \<Rightarrow> (True, cs, w')
      | (False, cs, w') \<Rightarrow>
          (case attempt_loop env timeout act gs w' of
             (ok, cs', w'') \<Rightarrow> (ok, cs @ cs', w'')))"

section \<open>\<^verbatim>\<open>fill_field\<close>\<close>

definition fillField_attempts :: "'w browser \<Rightarrow> string \<Rightarrow> (error + locator) list" where
  \<open>fillField_attempts env label =
     [ Inr (First (GetByLabel Page (Str label))),
       Inr (First (GetByPlaceholder Page (Str label))),
       map_sum id (\<lambda>rx. First (GetByRole Page ''textbox'' rx)) (new_RegExp env label ''i''),
       Inr (First (Locator Page
              (''input[aria-label*="'' @ label @ ''"],textarea[aria-label*="'' @ label @ ''"]''))),
       Inr (First (Locator Page
              (''input[name*="'' @ label @ ''"],textarea[name*="'' @ label @ ''"]''))),
       Inr (First (Locator Page
              (''input[id*="'' @ label @ ''"],textarea[id*="'' @ label @ ''"]''))),
       Inr (First (Filter (Locator Page ''input[type="password"]''))) ]\<close>

definition fillField ::
  "'w browser \<Rightarrow> string \<Rightarrow> string \<Rightarrow> 'w \<Rightarrow> (error + tool_result) \<times> call list \<times> 'w" where
  \<open>fillField env label val w =
     (case attempt_loop env 3000 (DoFill val) (fillField_attempts env label) w of
        (True, cs, w') \<Rightarrow> (Inr \<lparr>success = True, screenshot_file = None\<rparr>, cs, w')
      | (False, cs, w') \<Rightarrow>
          (Inl (Error (''Unable to locate field for label "'' @ label @ ''"'')), cs, w'))\<close>

section \<open>\<^verbatim>\<open>click_by_text\<close>\<close>

definition clickByText_attempts :: "pattern \<Rightarrow> string \<Rightarrow> (error + locator) list" where
  \<open>clickByText_attempts rx text =
     [ Inr (First (GetByRole Page ''button'' rx)),
       Inr (First (Locator Page (''button:has-text("'' @ text @ ''")''))),
       Inr (First (Locator Page (''input[type="submit"][value*="'' @ text @ ''"]''))),
       Inr (First (Locator Page (''a:has-text("'' @ text @ ''")''))) ]\<close>

text \<open>The pattern is built before the loop, outside every \<^verbatim>\<open>try\<close>.\<close>

definition clickByText ::
  "'w browser \<Rightarrow> string \<Rightarrow> 'w \<Rightarrow> (error + tool_result) \<times> call list \<times> 'w" where
  \<open>clickByText env text w =
     (case new_RegExp env text ''i'' of
        Inl e \<Rightarrow> (Inl e, [], w)
      | Inr rx \<Rightarrow>
          (case attempt_loop env 3000 DoClick (clickByText_attempts rx text) w of
             (True, cs, w') \<Rightarrow> (Inr \<lparr>success = True, screenshot_file = None\<rparr>, cs, w')
           | (False, cs, w') \<Rightarrow>
               (Inl (Error (''Unable to click element with text "'' @ text @ ''"'')), cs, w')))\<close>

section \<open>\<^verbatim>\<open>auto_fill_form\<close>\<close>

subsection \<open>The data and the keyword table\<close>

record form_data =
  firstName :: string
  lastName :: string
  email :: string
  password :: string
  confirmPassword :: string

text \<open>\<^verbatim>\<open>data[key]\<close>: \<open>None\<close> is JavaScript's \<^verbatim>\<open>undefined\<close>.\<close>

definition data_get :: "form_data \<Rightarrow> string \<Rightarrow> string option" where
  "data_get data key =
     (if key = ''firstName'' then Some (firstName data)
      else if key = ''lastName'' then Some (lastName data)
      else if key = ''email'' then Some (email data)
      else if key = ''password'' then Some (password data)
      else if key = ''confirmPassword'' then Some (confirmPassword data)
      else None)"

definition fieldToKeywords :: "(string \<times> string list) list" where
  "fieldToKeywords =
     [ (''firstName'', [''first name'', ''firstname'', ''given name'', ''given'', ''first'']),
       (''lastName'', [''last name'', ''lastname'', ''surname'', ''family name'', ''last'']),
       (''email'', [''email'', ''e-mail'', ''mail'']),
       (''password'', [''password'', ''passcode'', ''pwd'']),
       (''confirmPassword'',
          [''confirm password'', ''confirm'', ''retype password'', ''repeat password'']) ]"

definition fillOrder :: "string list" where
  "fillOrder = [''firstName'', ''lastName'', ''email'', ''password'', ''confirmPassword'']"

subsection \<open>The string helpers of JavaScript that the key is passed through\<close>

definition upper_letters :: string where
  "upper_letters = ''ABCDEFGHIJKLMNOPQRSTUVWXYZ''"

definition lower_letters :: string where
  "lower_letters = ''abcdefghijklmnopqrstuvwxyz''"

text \<open>The character class \<^verbatim>\<open>[A-Z]\<close>.\<close>

definition is_upper :: "char \<Rightarrow> bool" where
  "is_upper c = (c \<in> set upper_letters)"

text \<open>\<^verbatim>\<open>m.toLowerCase()\<close> on one character.\<close>

definition toLowerCase :: "char \<Rightarrow> char" where
  "toLowerCase c =
     (case map_of (zip upper_letters lower_letters) c of Some l \<Rightarrow> l | None \<Rightarrow> c)"

text \<open>White space as \<^verbatim>\<open>trim\<close> sees it in a string of bytes: space, TAB, LF, VT, FF, CR.\<close>

definition is_space :: "char \<Rightarrow> bool" where
  "is_space c = (c \<in> set [CHR '' '', CHR 0x09, CHR 0x0A, CHR 0x0B, CHR 0x0C, CHR 0x0D])"

definition trim :: "string \<Rightarrow> string" where
  "trim s = rev (dropWhile is_space (rev (dropWhile is_space s)))"

text \<open>\<^verbatim>\<open>key.replace(/([A-Z])/g, " $1")\<close>\<close>

definition replace_caps_spaced :: "string \<Rightarrow> string" where
  "replace_caps_spaced key = concat (map (\<lambda>c. if is_upper c then [CHR '' '', c] else [c]) key)"

text \<open>\<^verbatim>\<open>key.replace(/[A-Z]/g, (m) => ` ${m.toLowerCase()}`)\<close>\<close>

definition replace_caps_lowered :: "string \<Rightarrow> string" where
  "replace_caps_lowered key =
     concat (map (\<lambda>c. if is_upper c then [CHR '' '', toLowerCase c] else [c]) key)"

text \<open>
  \<^verbatim>\<open>
  const keywords = fieldToKeywords[key] || [key];
  const localized = [...keywords, key,
    key.replace(/([A-Z])/g, " $1").trim(),
    key.replace(/[A-Z]/g, (m) => ` ${m.toLowerCase()}`).trim()];
  \<close>
  An array is truthy, so \<^verbatim>\<open>|| [key]\<close> is taken only for a key the table lacks.
\<close>

definition localized :: "string \<Rightarrow> string list" where
  "localized key =
     (let keywords = (case map_of fieldToKeywords key of Some ks \<Rightarrow> ks | None \<Rightarrow> [key])
      in keywords @ [key, trim (replace_caps_spaced key), trim (replace_caps_lowered key)])"

subsection \<open>\<^verbatim>\<open>tryFillByKeywords\<close>\<close>

definition keyword_attempts :: "'w browser \<Rightarrow> string \<Rightarrow> (error + locator) list" where
  \<open>keyword_attempts env kw =
     [ map_sum id (\<lambda>rx. First (GetByLabel Page rx)) (new_RegExp env kw ''i''),
       map_sum id (\<lambda>rx. First (GetByPlaceholder Page rx)) (new_RegExp env kw ''i''),
       map_sum id (\<lambda>rx. First (GetByRole Page ''textbox'' rx)) (new_RegExp env kw ''i''),
       Inr (First (Locator Page (''input[aria-label*="'' @ kw @ ''"]''))),
       Inr (First (Locator Page (''textarea[aria-label*="'' @ kw @ ''"]''))),
       Inr (First (Locator Page (''input[name*="'' @ kw @ ''"]''))),
       Inr (First (Locator Page (''textarea[name*="'' @ kw @ ''"]''))),
       Inr (First (Locator Page (''input[id*="'' @ kw @ ''"]''))),
       Inr (First (Locator Page (''textarea[id*="'' @ kw @ ''"]''))) ]\<close>

fun tryFillByKeywords ::
  "'w browser \<Rightarrow> string list \<Rightarrow> string \<Rightarrow> 'w \<Rightarrow> bool \<times> call list \<times> 'w" where
  "tryFillByKeywords env [] val w = (False, [], w)"
| "tryFillByKeywords env (kw # kws) val w =
     (case attempt_loop env 1500 (DoFill val) (keyword_attempts env kw) w of
        (True, cs, w') \<Rightarrow> (True, cs, w')
      | (False, cs, w') \<Rightarrow>
          (case tryFillByKeywords env kws val w' of
             (ok, cs', w'') \<Rightarrow> (ok, cs @ cs', w'')))"

subsection \<open>Choosing the form\<close>

text \<open>
  \<^verbatim>\<open>
  let bestIndex = 0; let bestScore = -1;
  for (let i = 0; i < formCount; i++) {
    const controls = await formLocator.nth(i).locator("input, textarea, select").count();
    if (controls > bestScore) { bestScore = controls; bestIndex = i; }
  }
  \<close>
\<close>

function score_forms ::
  "'w browser \<Rightarrow> 'w \<Rightarrow> locator \<Rightarrow> nat \<Rightarrow> nat \<Rightarrow> nat \<Rightarrow> int \<Rightarrow> (error + nat) \<times> call list" where
  "score_forms env w formLocator formCount i bestIndex bestScore =
     (if i < formCount then
        (let l = Locator (Nth formLocator i) ''input, textarea, select'' in
         case count env l w of
           None \<Rightarrow> (Inl (Rejected (Count l)), [Count l])
         | Some controls \<Rightarrow>
             (case (if int controls > bestScore
                    then score_forms env w formLocator formCount (i + 1) i (int controls)
                    else score_forms env w formLocator formCount (i + 1) bestIndex bestScore) of
                (r, cs) \<Rightarrow> (r, Count l # cs)))
      else (Inr bestIndex, []))"
  by pat_completeness auto
termination
  by (relation "measure (\<lambda>(env, w, formLocator, formCount, i, bestIndex, bestScore). formCount - i)")
     auto

declare score_forms.simps [simp del]

definition choose_form :: "'w browser \<Rightarrow> 'w \<Rightarrow> (error + locator) \<times> call list" where
  "choose_form env w =
     (let formLocator = Locator Page ''form'' in
      case count env formLocator w of
        None \<Rightarrow> (Inl (Rejected (Count formLocator)), [Count formLocator])
      | Some formCount \<Rightarrow>
          if formCount > 0 then
            (case score_forms env w formLocator formCount 0 0 (- 1) of
               (Inl e, cs) \<Rightarrow> (Inl e, Count formLocator # cs)
             | (Inr bestIndex, cs) \<Rightarrow> (Inr (Nth formLocator bestIndex), Count formLocator # cs))
          else (Inr (Locator Page ''body''), [Count formLocator]))"

subsection \<open>Filling the known fields\<close>

text \<open>The body of \<^verbatim>\<open>for (const key of fillOrder)\<close>; \<^verbatim>\<open>!value\<close> holds of
  \<^verbatim>\<open>undefined\<close> and of the empty string.\<close>

definition fill_known_field ::
  "'w browser \<Rightarrow> locator \<Rightarrow> form_data \<Rightarrow> string \<Rightarrow> 'w \<Rightarrow> call list \<times> 'w" where
  \<open>fill_known_field env formLocator data key w =
     (case data_get data key of
        None \<Rightarrow> ([], w)
      | Some val \<Rightarrow>
          if val = [] then ([], w)
          else
            (case tryFillByKeywords env (localized key) val w of
               (filled, cs, w') \<Rightarrow>
                 if \<not> filled \<and> (key = ''password'' \<or> key = ''confirmPassword'') then
                   (case attempt env 1500 (DoFill val)
                           (Inr (First (Locator formLocator ''input[type="password"]''))) w' of
                      (ok, cs', w'') \<Rightarrow> (cs @ cs', w''))
                 else (cs, w')))\<close>

fun fill_known_fields ::
  "'w browser \<Rightarrow> locator \<Rightarrow> form_data \<Rightarrow> string list \<Rightarrow> 'w \<Rightarrow> call list \<times> 'w" where
  "fill_known_fields env formLocator data [] w = ([], w)"
| "fill_known_fields env formLocator data (key # keys) w =
     (case fill_known_field env formLocator data key w of
        (cs, w') \<Rightarrow>
          (case fill_known_fields env formLocator data keys w' of
             (cs', w'') \<Rightarrow> (cs @ cs', w'')))"

subsection \<open>Submitting\<close>

definition submitTexts :: "string list" where
  "submitTexts =
     [''create account'', ''sign up'', ''signup'', ''register'', ''submit'', ''continue'', ''next'']"

text \<open>Three guarded blocks per text, each ending in \<^verbatim>\<open>break\<close>.\<close>

definition submit_attempts :: "'w browser \<Rightarrow> locator \<Rightarrow> string \<Rightarrow> (error + locator) list" where
  \<open>submit_attempts env formLocator text =
     [ map_sum id (\<lambda>rx. First (GetByRole formLocator ''button'' rx)) (new_RegExp env text ''i''),
       Inr (First (Locator formLocator (''button:has-text("'' @ text @ ''")''))),
       Inr (First (Locator formLocator ''input[type="submit"]'')) ]\<close>

fun try_submit ::
  "'w browser \<Rightarrow> locator \<Rightarrow> string list \<Rightarrow> 'w \<Rightarrow> bool \<times> call list \<times> 'w" where
  "try_submit env formLocator [] w = (False, [], w)"
| "try_submit env formLocator (text # texts) w =
     (case attempt_loop env 1200 DoClick (submit_attempts env formLocator text) w of
        (True, cs, w') \<Rightarrow> (True, cs, w')
      | (False, cs, w') \<Rightarrow>
          (case try_submit env formLocator texts w' of
             (ok, cs', w'') \<Rightarrow> (ok, cs @ cs', w'')))"

subsection \<open>The confirming screenshot\<close>

fun show_nat :: "nat \<Rightarrow> string" where
  "show_nat n =
     (if n < 10 then [''0123456789'' ! n]
      else show_nat (n div 10) @ [''0123456789'' ! (n mod 10)])"

declare show_nat.simps [simp del]

definition take_screenshot :: "'w browser \<Rightarrow> 'w \<Rightarrow> (error + tool_result) \<times> call list \<times> 'w" where
  "take_screenshot env w =
     (case screenshot env w of
        None \<Rightarrow> (Inl (Rejected Screenshot), [Screenshot], w)
      | Some buffer \<Rightarrow>
          (let file = ''screenshot-'' @ show_nat (now env w) @ ''.png'' in
           case writeFile env file buffer w of
             (False, w') \<Rightarrow> (Inl (Rejected (WriteFile file)), [Screenshot, WriteFile file], w')
           | (True, w') \<Rightarrow>
               (Inr \<lparr>success = True, screenshot_file = Some file\<rparr>,
                [Screenshot, WriteFile file], w')))"

subsection \<open>The tool\<close>

text \<open>The world and the calls between the choice of the form and the screenshot.\<close>

definition fill_and_submit ::
  "'w browser \<Rightarrow> locator \<Rightarrow> form_data \<Rightarrow> bool \<Rightarrow> 'w \<Rightarrow> call list \<times> 'w" where
  "fill_and_submit env formLocator data submit w =
     (case fill_known_fields env formLocator data fillOrder w of
        (cs1, w1) \<Rightarrow>
          if submit then
            (case try_submit env formLocator submitTexts w1 of
               (clicked, cs2, w2) \<Rightarrow> (cs1 @ cs2, w2))
          else (cs1, w1))"

definition autoFillForm ::
  "'w browser \<Rightarrow> form_data \<Rightarrow> bool \<Rightarrow> 'w \<Rightarrow> (error + tool_result) \<times> call list \<times> 'w" where
  "autoFillForm env data submit w =
     (case choose_form env w of
        (Inl e, cs0) \<Rightarrow> (Inl e, cs0, w)
      | (Inr formLocator, cs0) \<Rightarrow>
          (case fill_and_submit env formLocator data submit w of
             (cs1, w1) \<Rightarrow>
               (case take_screenshot env w1 of
                  (r, cs2, w2) \<Rightarrow> (r, cs0 @ cs1 @ cs2, w2))))"

section \<open>Notions the properties are stated with\<close>

text \<open>
  \<open>within scope l\<close>: the locator \<open>l\<close> is \<open>scope\<close> or is derived from it, so that it
  resolves inside the subtree of \<open>scope\<close>. A locator built on \<open>Page\<close> searches the
  whole document.
\<close>

fun within :: "locator \<Rightarrow> locator \<Rightarrow> bool" where
  "within scope Page = (scope = Page)"
| "within scope (Locator p css) = (scope = Locator p css \<or> within scope p)"
| "within scope (Nth p i) = (scope = Nth p i \<or> within scope p)"
| "within scope (First p) = (scope = First p \<or> within scope p)"
| "within scope (GetByLabel p x) = (scope = GetByLabel p x \<or> within scope p)"
| "within scope (GetByPlaceholder p x) = (scope = GetByPlaceholder p x \<or> within scope p)"
| "within scope (GetByRole p r x) = (scope = GetByRole p r x \<or> within scope p)"
| "within scope (Filter p) = (scope = Filter p \<or> within scope p)"





section \<open>Scripted browsers for the examples\<close>

text \<open>
  A pattern check that rejects an unterminated or unopened group, an unterminated
  character class and a trailing backslash, as the RegExp constructor does (it rejects
  more). The arguments are the number of open groups and whether a class is open.
\<close>

fun pattern_ok :: "nat \<Rightarrow> bool \<Rightarrow> string \<Rightarrow> bool" where
  "pattern_ok depth in_class [] = (depth = 0 \<and> \<not> in_class)"
| "pattern_ok depth in_class [c] =
     (if c = CHR 0x5C then False
      else if in_class then c = CHR '']'' \<and> depth = 0
      else if c = CHR ''['' \<or> c = CHR ''('' then False
      else if c = CHR '')'' then depth = 1
      else depth = 0)"
| "pattern_ok depth in_class (c # d # cs) =
     (if c = CHR 0x5C then pattern_ok depth in_class cs
      else if in_class then pattern_ok depth (c \<noteq> CHR '']'') (d # cs)
      else if c = CHR ''['' then pattern_ok depth True (d # cs)
      else if c = CHR ''('' then pattern_ok (Suc depth) False (d # cs)
      else if c = CHR '')'' then (case depth of 0 \<Rightarrow> False | Suc k \<Rightarrow> pattern_ok k False (d # cs))
      else pattern_ok depth False (d # cs))"

text \<open>
  A page described by what its locators do: \<open>counts\<close> gives the matches of a locator,
  \<open>visible\<close> lists the locators whose first match is visible. Every fill, click and
  file write succeeds and is appended to the world, which is the list of effects so far.
\<close>

definition scripted :: "(locator \<times> nat) list \<Rightarrow> locator list \<Rightarrow> call list browser" where
  "scripted counts visible =
     \<lparr> regexp_ok = pattern_ok 0 False,
       count = (\<lambda>l w. Some (case map_of counts l of Some n \<Rightarrow> n | None \<Rightarrow> 0)),
       waitFor = (\<lambda>l ms w. l \<in> set visible),
       fill = (\<lambda>l v w. (True, w @ [Fill l v])),
       click = (\<lambda>l w. (True, w @ [Click l])),
       screenshot = (\<lambda>w. Some ''PNG''),
       now = (\<lambda>w. 1700000000000 + length w),
       writeFile = (\<lambda>file buffer w. (True, w @ [WriteFile file])) \<rparr>"

definition forms :: locator where
  "forms = Locator Page ''form''"

definition controls_of :: "nat \<Rightarrow> locator" where
  "controls_of i = Locator (Nth (Locator Page ''form'') i) ''input, textarea, select''"

text \<open>Two forms with 3 and 5 controls, and two forms with 3 controls each.\<close>

definition page_3_5 :: "call list browser" where
  "page_3_5 = scripted [(forms, 2), (controls_of 0, 3), (controls_of 1, 5)] []"

definition page_3_3 :: "call list browser" where
  "page_3_3 = scripted [(forms, 2), (controls_of 0, 3), (controls_of 1, 3)] []"

text \<open>A sign-up record, and one with every value empty.\<close>

definition ada :: form_data where
  "ada = \<lparr> firstName = ''Ada'', lastName = ''Lovelace'', email = ''ada@example.org'',
           password = ''s3cret'', confirmPassword = ''s3cret'' \<rparr>"

definition blank :: form_data where
  "blank = \<lparr> firstName = [], lastName = [], email = [], password = [],
             confirmPassword = [] \<rparr>"

text \<open>A page with one form of two controls on which no locator of the script becomes
  visible, and the same page with a visible password input inside the form.\<close>

definition opaque_page :: "call list browser" where
  "opaque_page = scripted [(forms, 1), (controls_of 0, 2)] []"

definition password_only_form :: "call list browser" where
  \<open>password_only_form =
     scripted [(forms, 1), (controls_of 0, 2)]
       [First (Locator (Nth (Locator Page ''form'') 0) ''input[type="password"]'')]\<close>





text \<open>A page with one field, whose label is an opening parenthesis.\<close>

definition paren_label_page :: "call list browser" where
  "paren_label_page = scripted [] [First (GetByLabel Page (Str ''(''))]"

text \<open>A page with one form whose only button is a submit input that none of the submit
  texts names, such as \<^verbatim>\<open><input type="submit" value="Log in">\<close>.\<close>

definition log_in_page :: "call list browser" where
  \<open>log_in_page =
     scripted [(forms, 1), (controls_of 0, 3)]
       [First (Locator (Nth (Locator Page ''form'') 0) ''input[type="submit"]'')]\<close>

text \<open>Only the first name is given.\<close>

definition only_first_name :: form_data where
  "only_first_name = \<lparr> firstName = ''Ada'', lastName = [], email = [], password = [],
                       confirmPassword = [] \<rparr>"

text \<open>A page with one form of one control, and a field labelled \<^verbatim>\<open>First name\<close> that is
  not inside the form: only the page-wide label locator finds it.\<close>

definition stray_field_page :: "call list browser" where
  "stray_field_page =
     scripted [(forms, 1), (controls_of 0, 1)]
       [First (GetByLabel Page (RegExp ''first name'' ''i''))]"

text \<open>A page whose only input is a password input, with nothing that says \<^verbatim>\<open>Email\<close>.\<close>

definition password_only_page :: "call list browser" where
  \<open>password_only_page = scripted [] [First (Filter (Locator Page ''input[type="password"]''))]\<close>

section \<open>The attempt loop\<close>

lemma attempt_loop_failed_append:
  "attempt_loop env t act gs w = (False, cs, w') \<Longrightarrow>
   attempt_loop env t act (gs @ hs) w =
     (case attempt_loop env t act hs w' of (ok, cs', w'') \<Rightarrow> (ok, cs @ cs', w''))"
proof (induction gs arbitrary: w cs)
  case Nil
  then show ?case by (simp split: prod.splits)
next
  case (Cons g gs)
  obtain ok1 cs1 w1 where a: "attempt env t act g w = (ok1, cs1, w1)"
    by (cases "attempt env t act g w") auto
  obtain ok2 cs2 w2 where r: "attempt_loop env t act gs w1 = (ok2, cs2, w2)"
    by (cases "attempt_loop env t act gs w1") auto
  from Cons.prems a r have f: "\<not> ok1" "\<not> ok2" "cs = cs1 @ cs2" "w' = w2"
    by (auto split: if_splits bool.splits)
  from r f have "attempt_loop env t act gs w1 = (False, cs2, w')" by simp
  from Cons.IH [OF this] a f show ?case
    by (simp split: prod.splits)
qed

lemma attempt_loop_first_success:
  assumes "attempt_loop env t act pre w = (False, cs, w1)"
    and "attempt env t act g w1 = (True, cs', w2)"
  shows "attempt_loop env t act (pre @ g # post) w = (True, cs @ cs', w2)"
  using attempt_loop_failed_append [OF assms(1), of "g # post"] assms(2) by simp

lemma attempt_invisible:
  "\<not> waitFor env l t w \<Longrightarrow> attempt env t act (Inr l) w = (False, [WaitFor l t], w)"
  by (simp add: attempt_def)



lemma attempt_thrown: "attempt env t act (Inl e) w = (False, [], w)"
  by (simp add: attempt_def)

section \<open>The form selector\<close>

lemma score_forms_invariant:
  assumes "\<forall>j<n. count env (Locator (Nth fl j) ''input, textarea, select'') w = Some (c j)"
    and "i \<le> n" and "bi < n \<or> n = 0"
    and "\<forall>j<i. int (c j) \<le> bs"
    and "bs = - 1 \<and> i = 0 \<and> bi = 0 \<or> bi < i \<and> bs = int (c bi) \<and> (\<forall>j<bi. c j < c bi)"
  shows "\<exists>b cs. score_forms env w fl n i bi bs = (Inr b, cs) \<and>
           (0 < n \<longrightarrow> b < n \<and> (\<forall>j<n. c j \<le> c b) \<and> (\<forall>j<b. c j < c b))"
  using assms
proof (induction env w fl n i bi bs rule: score_forms.induct)
  case (1 env w fl n i bi bs)
  show ?case
  proof (cases "i < n")
    case False
    with "1.prems" have "i = n" by simp
    with "1.prems" show ?thesis
      by (subst score_forms.simps) (auto simp: not_less)
  next
    case True
    let ?l = "Locator (Nth fl i) ''input, textarea, select''"
    from True "1.prems"(1) have ci: "count env ?l w = Some (c i)" by simp
    show ?thesis
    proof (cases "int (c i) > bs")
      case better: True
      have "\<exists>b cs. score_forms env w fl n (i + 1) i (int (c i)) = (Inr b, cs) \<and>
              (0 < n \<longrightarrow> b < n \<and> (\<forall>j<n. c j \<le> c b) \<and> (\<forall>j<b. c j < c b))"
      proof (rule "1.IH"(1) [OF True refl ci better "1.prems"(1)])
        show "i + 1 \<le> n" using True by simp
        show "i < n \<or> n = 0" using True by simp
        show "\<forall>j<i + 1. int (c j) \<le> int (c i)"
          using "1.prems"(4) better by (auto simp: less_Suc_eq)
        show "int (c i) = - 1 \<and> i + 1 = 0 \<and> i = 0 \<or>
              i < i + 1 \<and> int (c i) = int (c i) \<and> (\<forall>j<i. c j < c i)"
          using "1.prems"(4) better by auto
      qed
      then show ?thesis
        using True ci better by (subst score_forms.simps) auto
    next
      case worse: False
      with "1.prems"(5) have old: "bi < i" "bs = int (c bi)" "\<forall>j<bi. c j < c bi"
        by auto
      have "\<exists>b cs. score_forms env w fl n (i + 1) bi bs = (Inr b, cs) \<and>
              (0 < n \<longrightarrow> b < n \<and> (\<forall>j<n. c j \<le> c b) \<and> (\<forall>j<b. c j < c b))"
      proof (rule "1.IH"(2) [OF True refl ci worse "1.prems"(1)])
        show "i + 1 \<le> n" using True by simp
        show "bi < n \<or> n = 0" using old True by simp
        show "\<forall>j<i + 1. int (c j) \<le> bs"
          using "1.prems"(4) worse by (auto simp: less_Suc_eq)
        show "bs = - 1 \<and> i + 1 = 0 \<and> bi = 0 \<or>
              bi < i + 1 \<and> bs = int (c bi) \<and> (\<forall>j<bi. c j < c bi)"
          using old by simp
      qed
      then show ?thesis
        using True ci worse by (subst score_forms.simps) auto
    qed
  qed
qed

text \<open>
  Claim C2. When the page has no form, the scope is \<^verbatim>\<open>page.locator("body")\<close>. When it
  has \<open>n > 0\<close> forms and form \<open>j\<close> has \<open>c j\<close> input, textarea and select descendants,
  the scope is form \<open>b\<close>, where \<open>c b\<close> is the largest count and every form before
  \<open>b\<close> has strictly fewer controls: the first form of maximal count.
\<close>

theorem choose_form_first_largest:
  assumes "count env (Locator Page ''form'') w = Some n"
    and "\<forall>j<n. count env (controls_of j) w = Some (c j)"
  shows "(n = 0 \<longrightarrow> fst (choose_form env w) = Inr (Locator Page ''body'')) \<and>
         (0 < n \<longrightarrow>
            (\<exists>b<n. fst (choose_form env w) = Inr (Nth (Locator Page ''form'') b) \<and>
                    (\<forall>j<n. c j \<le> c b) \<and> (\<forall>j<b. c j < c b)))"
proof (cases "n = 0")
  case True
  with assms(1) show ?thesis by (simp add: choose_form_def Let_def)
next
  case False
  from assms(2)
  have cnt: "\<forall>j<n. count env (Locator (Nth (Locator Page ''form'') j) ''input, textarea, select'') w
               = Some (c j)"
    by (simp add: controls_of_def)
  from score_forms_invariant [OF cnt, of 0 0 "- 1"] False
  obtain b cs where b: "score_forms env w (Locator Page ''form'') n 0 0 (- 1) = (Inr b, cs)"
    and best: "b < n" "\<forall>j<n. c j \<le> c b" "\<forall>j<b. c j < c b"
    by auto
  from assms(1) False b
  have "fst (choose_form env w) = Inr (Nth (Locator Page ''form'') b)"
    by (simp add: choose_form_def Let_def)
  with best False show ?thesis by auto
qed

theorem choose_form_first_largest_witness:
  "count page_3_5 (Locator Page ''form'') [] = Some 2 \<and>
   count page_3_5 (controls_of 0) [] = Some 3 \<and>
   count page_3_5 (controls_of 1) [] = Some 5 \<and>
   fst (choose_form page_3_5 []) = Inr (Nth (Locator Page ''form'') 1)"
proof -
  have h1: "count page_3_5 (Locator Page ''form'') [] = Some 2"
    by (simp add: page_3_5_def scripted_def forms_def controls_of_def)
  have h2: "\<forall>j<2. count page_3_5 (controls_of j) [] = Some (if j = 0 then 3 else 5)"
    by (auto simp: page_3_5_def scripted_def forms_def controls_of_def less_2_cases_iff)
  from choose_form_first_largest [OF h1 h2]
  obtain b where b: "b < 2" "fst (choose_form page_3_5 []) = Inr (Nth (Locator Page ''form'') b)"
    and mx: "\<forall>j<2::nat. (if j = 0 then 3 else 5 :: nat) \<le> (if b = 0 then 3 else 5)"
    by auto
  from mx have "(if (1::nat) = 0 then 3 else 5 :: nat) \<le> (if b = 0 then 3 else 5)"
    by (rule allE [of _ 1]) simp
  then have "b \<noteq> 0" by (auto split: if_splits)
  with b have "b = 1" by simp
  moreover from h2 have "count page_3_5 (controls_of 0) [] = Some 3"
    and "count page_3_5 (controls_of 1) [] = Some 5" by auto
  ultimately show ?thesis using b h1 by simp
qed

text \<open>The tie of the specification: with 3 and 3 controls the first form is chosen.\<close>

lemma choose_form_tie_example:
  "choose_form page_3_3 [] =
     (Inr (Nth (Locator Page ''form'') 0),
      [Count (Locator Page ''form''), Count (controls_of 0), Count (controls_of 1)])"
  by (simp add: choose_form_def page_3_3_def scripted_def forms_def controls_of_def
        score_forms.simps Let_def)

section \<open>Locators that never become visible\<close>

lemma attempt_loop_unseen:
  assumes "\<And>l. Inr l \<in> set gs \<Longrightarrow> \<not> waitFor env l t w"
  shows "fst (attempt_loop env t act gs w) = False \<and>
         snd (snd (attempt_loop env t act gs w)) = w"
  using assms
proof (induction gs)
  case Nil
  show ?case by simp
next
  case (Cons g gs)
  have tl: "fst (attempt_loop env t act gs w) = False \<and>
            snd (snd (attempt_loop env t act gs w)) = w"
    by (rule Cons.IH) (simp add: Cons.prems)
  have hd: "\<exists>cs. attempt env t act g w = (False, cs, w)"
  proof (cases g)
    case (Inl e)
    then show ?thesis by (simp add: attempt_thrown)
  next
    case (Inr l)
    then have "\<not> waitFor env l t w" by (simp add: Cons.prems)
    with Inr show ?thesis by (simp add: attempt_invisible)
  qed
  then obtain cs where a: "attempt env t act g w = (False, cs, w)" ..
  obtain ok cs' w' where r: "attempt_loop env t act gs w = (ok, cs', w')"
    by (cases "attempt_loop env t act gs w") auto
  from tl r have "\<not> ok" "w' = w" by simp_all
  with a r show ?case by simp
qed

text \<open>Every locator that \<^verbatim>\<open>tryFillByKeywords\<close> builds starts at the page.\<close>

lemma keyword_attempts_page_rooted:
  "Inr l \<in> set (keyword_attempts env kw) \<Longrightarrow> \<not> within (Nth p i) l"
  by (auto simp: keyword_attempts_def new_RegExp_def split: if_splits)

lemma tryFillByKeywords_unseen:
  assumes "\<And>l. waitFor env l 1500 w \<Longrightarrow> within (Nth p i) l"
  shows "fst (tryFillByKeywords env kws val w) = False \<and>
         snd (snd (tryFillByKeywords env kws val w)) = w"
proof (induction kws)
  case Nil
  show ?case by simp
next
  case (Cons kw kws)
  have "fst (attempt_loop env 1500 (DoFill val) (keyword_attempts env kw) w) = False \<and>
        snd (snd (attempt_loop env 1500 (DoFill val) (keyword_attempts env kw) w)) = w"
    by (rule attempt_loop_unseen) (use assms keyword_attempts_page_rooted in blast)
  then obtain cs where a:
    "attempt_loop env 1500 (DoFill val) (keyword_attempts env kw) w = (False, cs, w)"
    by (cases "attempt_loop env 1500 (DoFill val) (keyword_attempts env kw) w") auto
  obtain ok cs' w' where r: "tryFillByKeywords env kws val w = (ok, cs', w')"
    by (cases "tryFillByKeywords env kws val w") auto
  from Cons.IH r have "\<not> ok" "w' = w" by simp_all
  with a r show ?case by simp
qed

section \<open>Fields with an empty value\<close>

text \<open>
  Claim C9. A field whose value is the empty string is passed over: its processing issues
  no call on the browser and leaves the world as it was, and the loop over the fields
  goes on as if the key were not in the list.
\<close>

theorem fill_known_field_empty_value:
  assumes "data_get data key = Some []"
  shows "fill_known_field env formLocator data key w = ([], w) \<and>
         fill_known_fields env formLocator data (key # keys) w =
           fill_known_fields env formLocator data keys w"
  using assms by (simp add: fill_known_field_def split: prod.splits)

theorem fill_known_field_empty_value_witness:
  "data_get blank ''email'' = Some [] \<and>
   fill_known_field password_only_form (Nth (Locator Page ''form'') 0) blank ''email'' [] = ([], []) \<and>
   fill_known_fields password_only_form (Nth (Locator Page ''form'') 0) blank [''email''] [] = ([], [])"
proof -
  have h: "data_get blank ''email'' = Some []"
    by (simp add: data_get_def blank_def)
  from fill_known_field_empty_value [OF h, of password_only_form "Nth (Locator Page ''form'') 0" "[]" "[]"] h
  show ?thesis by simp
qed

text \<open>With every value empty the whole loop over \<open>fillOrder\<close> does nothing.\<close>

lemma fill_known_fields_blank:
  "fill_known_fields env formLocator blank fillOrder w = ([], w)"
  by (simp add: fillOrder_def fill_known_field_def data_get_def blank_def)

section \<open>Fields that no keyword resolves\<close>



lemmas js_string_defs =
  trim_def replace_caps_spaced_def replace_caps_lowered_def is_upper_def is_space_def
  toLowerCase_def upper_letters_def lower_letters_def


section \<open>The result of \<^verbatim>\<open>auto_fill_form\<close>\<close>

lemma fill_known_field_unseen:
  assumes "\<And>l t. \<not> waitFor env l t w"
  shows "snd (fill_known_field env formLocator data key w) = w"
proof -
  have kw: "\<And>val. snd (snd (tryFillByKeywords env (localized key) val w)) = w"
    using tryFillByKeywords_unseen [of env w Page 0] assms by blast
  have pw: "\<And>val l. snd (snd (attempt env 1500 (DoFill val) (Inr l) w)) = w"
    using assms by (simp add: attempt_invisible)
  show ?thesis
  proof (cases "data_get data key")
    case None
    then show ?thesis by (simp add: fill_known_field_def)
  next
    case (Some val)
    obtain filled cs w' where t: "tryFillByKeywords env (localized key) val w = (filled, cs, w')"
      by (cases "tryFillByKeywords env (localized key) val w") auto
    with kw [of val] have w': "w' = w" by simp
    obtain ok cs' w'' where a:
      \<open>attempt env 1500 (DoFill val)
         (Inr (First (Locator formLocator ''input[type="password"]''))) w = (ok, cs', w'')\<close>
      by (cases \<open>attempt env 1500 (DoFill val)
                  (Inr (First (Locator formLocator ''input[type="password"]''))) w\<close>) auto
    with pw [of val \<open>First (Locator formLocator ''input[type="password"]'')\<close>]
    have "w'' = w" by simp
    with Some t a w' show ?thesis by (simp add: fill_known_field_def)
  qed
qed

lemma fill_known_fields_unseen:
  assumes "\<And>l t. \<not> waitFor env l t w"
  shows "snd (fill_known_fields env formLocator data keys w) = w"
proof (induction keys)
  case Nil
  show ?case by simp
next
  case (Cons key keys)
  from fill_known_field_unseen [OF assms, of formLocator data key] Cons.IH
  show ?case by (auto split: prod.splits)
qed

lemma try_submit_unseen:
  assumes "\<And>l t. \<not> waitFor env l t w"
  shows "fst (try_submit env formLocator labels w) = False \<and>
         snd (snd (try_submit env formLocator labels w)) = w"
proof (induction labels)
  case Nil
  show ?case by simp
next
  case (Cons label labels)
  have "fst (attempt_loop env 1200 DoClick (submit_attempts env formLocator label) w) = False \<and>
        snd (snd (attempt_loop env 1200 DoClick (submit_attempts env formLocator label) w)) = w"
    by (rule attempt_loop_unseen) (simp add: assms)
  then obtain cs where a:
    "attempt_loop env 1200 DoClick (submit_attempts env formLocator label) w = (False, cs, w)"
    by (cases "attempt_loop env 1200 DoClick (submit_attempts env formLocator label) w") auto
  obtain ok cs' w' where r: "try_submit env formLocator labels w = (ok, cs', w')"
    by (cases "try_submit env formLocator labels w") auto
  from Cons.IH r have "\<not> ok" "w' = w" by simp_all
  with a r show ?case by simp
qed

lemma fill_and_submit_unseen:
  assumes "\<And>l t. \<not> waitFor env l t w"
  shows "snd (fill_and_submit env formLocator data submit w) = w"
proof -
  obtain cs1 w1 where f: "fill_known_fields env formLocator data fillOrder w = (cs1, w1)"
    by (cases "fill_known_fields env formLocator data fillOrder w") auto
  with fill_known_fields_unseen [OF assms, of formLocator data fillOrder]
  have w1: "w1 = w" by simp
  obtain ok cs2 w2 where s: "try_submit env formLocator submitTexts w = (ok, cs2, w2)"
    by (cases "try_submit env formLocator submitTexts w") auto
  with try_submit_unseen [OF assms, of formLocator submitTexts]
  have "w2 = w" by simp
  with f s w1 show ?thesis by (simp add: fill_and_submit_def)
qed

text \<open>
  Claim C3. Once the form scope is determined, whatever the filling of the fields and
  the search for a submit button did (they yield calls and a world, never an error), a
  screenshot that is taken and written makes the tool return
  \<^verbatim>\<open>{ success: true, screenshot: file }\<close> with the name of the written file.
\<close>

theorem autoFillForm_success:
  assumes "choose_form env w = (Inr formLocator, cs0)"
    and "fill_and_submit env formLocator data submit w = (cs1, w1)"
    and "screenshot env w1 = Some buffer"
    and "file = ''screenshot-'' @ show_nat (now env w1) @ ''.png''"
    and "writeFile env file buffer w1 = (True, w2)"
  shows "autoFillForm env data submit w =
           (Inr \<lparr>success = True, screenshot_file = Some file\<rparr>,
            cs0 @ cs1 @ [Screenshot, WriteFile file], w2)"
  using assms by (simp add: autoFillForm_def take_screenshot_def Let_def)

lemma show_nat_example: "show_nat 1700000000000 = ''1700000000000''"
  by (simp add: show_nat.simps)

theorem autoFillForm_success_witness:
  "choose_form opaque_page [] =
     (Inr (Nth (Locator Page ''form'') 0), [Count (Locator Page ''form''), Count (controls_of 0)]) \<and>
   fst (try_submit opaque_page (Nth (Locator Page ''form'') 0) submitTexts []) = False \<and>
   autoFillForm opaque_page ada True [] =
     (Inr \<lparr>success = True, screenshot_file = Some ''screenshot-1700000000000.png''\<rparr>,
      [Count (Locator Page ''form''), Count (controls_of 0)] @
        fst (fill_and_submit opaque_page (Nth (Locator Page ''form'') 0) ada True []) @
        [Screenshot, WriteFile ''screenshot-1700000000000.png''],
      [WriteFile ''screenshot-1700000000000.png''])"
proof -
  let ?F = "Nth (Locator Page ''form'') 0"
  have unseen: "\<And>l t. \<not> waitFor opaque_page l t []"
    by (simp add: opaque_page_def scripted_def)
  have h1: "choose_form opaque_page [] =
              (Inr ?F, [Count (Locator Page ''form''), Count (controls_of 0)])"
    by (simp add: choose_form_def opaque_page_def scripted_def forms_def controls_of_def
          score_forms.simps Let_def)
  have h2: "fill_and_submit opaque_page ?F ada True [] =
              (fst (fill_and_submit opaque_page ?F ada True []), [])"
    using fill_and_submit_unseen [OF unseen, of ?F ada True] by (simp add: prod_eq_iff)
  have h3: "screenshot opaque_page [] = Some ''PNG''"
    by (simp add: opaque_page_def scripted_def)
  have h4: "''screenshot-1700000000000.png'' =
              ''screenshot-'' @ show_nat (now opaque_page []) @ ''.png''"
    by (simp add: opaque_page_def scripted_def show_nat_example)
  have h5: "writeFile opaque_page ''screenshot-1700000000000.png'' ''PNG'' [] =
              (True, [WriteFile ''screenshot-1700000000000.png''])"
    by (simp add: opaque_page_def scripted_def)
  have s: "fst (try_submit opaque_page ?F submitTexts []) = False"
    using try_submit_unseen [OF unseen, of ?F submitTexts] by simp
  from autoFillForm_success [OF h1 h2 h3 h4 h5] h1 s show ?thesis
    by (intro conjI)
qed

section \<open>The candidate keywords of a field\<close>







section \<open>\<^verbatim>\<open>click_by_text\<close>: the order of the strategies\<close>




text \<open>When none of the four is visible the tool fails with its one declared error.\<close>

lemma clickByText_all_unseen:
  assumes "regexp_ok env text" and "\<And>l. \<not> waitFor env l 3000 w"
  shows \<open>fst (clickByText env text w) =
           Inl (Error (''Unable to click element with text "'' @ text @ ''"''))\<close>
proof -
  have "fst (attempt_loop env 3000 DoClick (clickByText_attempts (RegExp text ''i'') text) w)
          = False"
    using attempt_loop_unseen [of "clickByText_attempts (RegExp text ''i'') text" env 3000 w DoClick]
      assms(2) by blast
  with assms(1) show ?thesis
    by (auto simp: clickByText_def new_RegExp_def split: prod.splits)
qed

section \<open>Arguments that are used as patterns\<close>

text \<open>
  \<^verbatim>\<open>fill_field\<close> hands its label to \<^verbatim>\<open>getByLabel\<close> and \<^verbatim>\<open>getByPlaceholder\<close> as a
  string; only the role strategy builds a pattern from it, inside the guarded attempt.
  On a page with a field labelled \<^verbatim>\<open>(\<close>, a label the RegExp constructor rejects, the
  label strategy finds and fills the field.
\<close>

theorem fillField_label_taken_literally:
  "\<not> regexp_ok paren_label_page ''('' \<and>
   fillField paren_label_page ''('' ''x'' [] =
     (Inr \<lparr>success = True, screenshot_file = None\<rparr>,
      [WaitFor (First (GetByLabel Page (Str ''(''))) 3000,
       Fill (First (GetByLabel Page (Str ''(''))) ''x''],
      [Fill (First (GetByLabel Page (Str ''(''))) ''x''])"
  by (simp add: paren_label_page_def scripted_def fillField_def fillField_attempts_def
        attempt_def perform_def)

text \<open>
  Claim C10, amended. The text of \<^verbatim>\<open>click_by_text\<close> is compiled to a pattern with flag
  \<open>i\<close> before the loop and outside every \<^verbatim>\<open>try\<close>: a text the RegExp constructor
  rejects makes the tool throw the SyntaxError with no call on the browser made. The
  label of \<^verbatim>\<open>fill_field\<close> is a pattern in the role strategy only (its label and
  placeholder strategies take it as a string), and there the SyntaxError is caught like
  any failed attempt, so \<^verbatim>\<open>fill_field\<close> never ends with it.
\<close>

theorem rejected_pattern:
  assumes "\<not> regexp_ok env s"
  shows "clickByText env s w = (Inl (SyntaxError s), [], w) \<and>
         take 3 (fillField_attempts env s) =
           [Inr (First (GetByLabel Page (Str s))),
            Inr (First (GetByPlaceholder Page (Str s))),
            Inl (SyntaxError s)] \<and>
         fst (fillField env s v w) \<noteq> Inl (SyntaxError s)"
proof -
  have c: "clickByText env s w = (Inl (SyntaxError s), [], w)"
    using assms by (simp add: clickByText_def new_RegExp_def)
  have a: "take 3 (fillField_attempts env s) =
           [Inr (First (GetByLabel Page (Str s))),
            Inr (First (GetByPlaceholder Page (Str s))),
            Inl (SyntaxError s)]"
    using assms by (simp add: fillField_attempts_def new_RegExp_def)
  have f: "fst (fillField env s v w) \<noteq> Inl (SyntaxError s)"
    by (simp add: fillField_def split: prod.splits bool.splits)
  from c a f show ?thesis by (intro conjI)
qed

theorem rejected_pattern_witness:
  "\<not> regexp_ok paren_label_page ''('' \<and>
   clickByText paren_label_page ''('' [] = (Inl (SyntaxError ''(''), [], []) \<and>
   take 3 (fillField_attempts paren_label_page ''('') =
     [Inr (First (GetByLabel Page (Str ''(''))),
      Inr (First (GetByPlaceholder Page (Str ''(''))),
      Inl (SyntaxError ''('')] \<and>
   fst (fillField paren_label_page ''('' ''x'' []) \<noteq> Inl (SyntaxError ''('')"
proof -
  have h: "\<not> regexp_ok paren_label_page ''(''"
    by (simp add: paren_label_page_def scripted_def)
  from rejected_pattern [OF h, of "[]" "''x''"] h show ?thesis
    by (intro conjI) simp_all
qed

text \<open>With a text the constructor accepts, both role strategies carry the pattern.\<close>

lemma accepted_pattern:
  assumes "regexp_ok env s"
  shows "hd (clickByText_attempts (RegExp s ''i'') s) =
           Inr (First (GetByRole Page ''button'' (RegExp s ''i'')))"
    and "fillField_attempts env s ! 2 = Inr (First (GetByRole Page ''textbox'' (RegExp s ''i'')))"
  using assms
  by (simp_all add: clickByText_attempts_def fillField_attempts_def new_RegExp_def)

section \<open>Submitting: the order of the attempts\<close>

lemma try_submit_flat:
  "try_submit env formLocator labels w =
     attempt_loop env 1200 DoClick (concat (map (submit_attempts env formLocator) labels)) w"
proof (induction labels arbitrary: w)
  case Nil
  show ?case by simp
next
  case (Cons label labels)
  obtain ok cs w' where
    a: "attempt_loop env 1200 DoClick (submit_attempts env formLocator label) w = (ok, cs, w')"
    by (cases "attempt_loop env 1200 DoClick (submit_attempts env formLocator label) w") auto
  show ?case
  proof (cases ok)
    case True
    with a have "attempt_loop env 1200 DoClick
                   (submit_attempts env formLocator label @
                    concat (map (submit_attempts env formLocator) labels)) w = (True, cs, w')"
      by (cases "submit_attempts env formLocator label")
         (auto simp: submit_attempts_def split: prod.splits bool.splits)
    with a True show ?thesis by simp
  next
    case False
    with a have "attempt_loop env 1200 DoClick (submit_attempts env formLocator label) w =
                   (False, cs, w')"
      by simp
    then have "attempt_loop env 1200 DoClick
            (submit_attempts env formLocator label @
             concat (map (submit_attempts env formLocator) labels)) w =
          (case attempt_loop env 1200 DoClick
                  (concat (map (submit_attempts env formLocator) labels)) w' of
             (ok, cs', w'') \<Rightarrow> (ok, cs @ cs', w''))"
      by (rule attempt_loop_failed_append)
    with a False Cons.IH show ?thesis by simp
  qed
qed

text \<open>
  The page of \<open>log_in_page\<close> has no submit input whose value contains
  \<^verbatim>\<open>create account\<close>; still, in the round of that first text, the third attempt waits
  for the form's first submit input, whatever its value, and clicks it.
\<close>

theorem try_submit_clicks_unlabelled_input:
  \<open>\<not> waitFor log_in_page
       (First (Locator (Nth (Locator Page ''form'') 0)
                 ''input[type="submit"][value*="create account"]'')) 1200 [] \<and>
   try_submit log_in_page (Nth (Locator Page ''form'') 0) submitTexts [] =
     (True,
      [WaitFor (First (GetByRole (Nth (Locator Page ''form'') 0) ''button''
                        (RegExp ''create account'' ''i''))) 1200,
       WaitFor (First (Locator (Nth (Locator Page ''form'') 0)
                        ''button:has-text("create account")'')) 1200,
       WaitFor (First (Locator (Nth (Locator Page ''form'') 0) ''input[type="submit"]'')) 1200,
       Click (First (Locator (Nth (Locator Page ''form'') 0) ''input[type="submit"]''))],
      [Click (First (Locator (Nth (Locator Page ''form'') 0) ''input[type="submit"]''))])\<close>
  by (simp add: log_in_page_def scripted_def submitTexts_def submit_attempts_def
        new_RegExp_def attempt_def perform_def)

text \<open>
  Claim C7, amended. When submit is requested, the texts \<^verbatim>\<open>create account\<close>,
  \<^verbatim>\<open>sign up\<close>, \<^verbatim>\<open>signup\<close>, \<^verbatim>\<open>register\<close>, \<^verbatim>\<open>submit\<close>, \<^verbatim>\<open>continue\<close>,
  \<^verbatim>\<open>next\<close> are gone through in this order, and for each one three attempts are made
  inside the chosen scope: the button role named by the text as a pattern, then
  \<^verbatim>\<open>button:has-text\<close> with the text, then the first \<^verbatim>\<open>input[type="submit"]\<close>, which
  is the same locator for every text and is not matched against it. The search stops at
  the first attempt that clicks: when the attempts \<open>before\<close> have failed and \<open>g\<close>
  succeeds, the calls are those made so far and nothing after \<open>g\<close> is tried.
\<close>

theorem try_submit_first_click:
  assumes "concat (map (submit_attempts env formLocator) submitTexts) = before @ g # after"
    and "attempt_loop env 1200 DoClick before w = (False, cs, w1)"
    and "attempt env 1200 DoClick g w1 = (True, cs', w2)"
    and "fill_known_fields env formLocator data fillOrder w0 = (cs0, w)"
  shows \<open>try_submit env formLocator submitTexts w = (True, cs @ cs', w2) \<and>
         fill_and_submit env formLocator data True w0 = (cs0 @ cs @ cs', w2) \<and>
         submitTexts =
           [''create account'', ''sign up'', ''signup'', ''register'', ''submit'',
            ''continue'', ''next''] \<and>
         (\<forall>label. submit_attempts env formLocator label =
            [if regexp_ok env label
             then Inr (First (GetByRole formLocator ''button'' (RegExp label ''i'')))
             else Inl (SyntaxError label),
             Inr (First (Locator formLocator (''button:has-text("'' @ label @ ''")''))),
             Inr (First (Locator formLocator ''input[type="submit"]''))])\<close>
proof -
  have "attempt_loop env 1200 DoClick (before @ g # after) w = (True, cs @ cs', w2)"
    using assms(2,3) by (rule attempt_loop_first_success)
  with assms(1) have t: "try_submit env formLocator submitTexts w = (True, cs @ cs', w2)"
    by (simp add: try_submit_flat)
  from t assms(4)
  have f: "fill_and_submit env formLocator data True w0 = (cs0 @ cs @ cs', w2)"
    by (simp add: fill_and_submit_def)
  have l: \<open>\<forall>label. submit_attempts env formLocator label =
            [if regexp_ok env label
             then Inr (First (GetByRole formLocator ''button'' (RegExp label ''i'')))
             else Inl (SyntaxError label),
             Inr (First (Locator formLocator (''button:has-text("'' @ label @ ''")''))),
             Inr (First (Locator formLocator ''input[type="submit"]''))]\<close>
    by (simp add: submit_attempts_def new_RegExp_def)
  from t f l show ?thesis
    by (simp add: submitTexts_def)
qed

theorem try_submit_first_click_witness:
  \<open>attempt_loop log_in_page 1200 DoClick
      [Inr (First (GetByRole (Nth (Locator Page ''form'') 0) ''button''
                      (RegExp ''create account'' ''i''))),
       Inr (First (Locator (Nth (Locator Page ''form'') 0)
                      ''button:has-text("create account")''))] [] =
     (False,
      [WaitFor (First (GetByRole (Nth (Locator Page ''form'') 0) ''button''
                        (RegExp ''create account'' ''i''))) 1200,
       WaitFor (First (Locator (Nth (Locator Page ''form'') 0)
                        ''button:has-text("create account")'')) 1200], []) \<and>
   fill_and_submit log_in_page (Nth (Locator Page ''form'') 0) blank True [] =
     ([] @
      [WaitFor (First (GetByRole (Nth (Locator Page ''form'') 0) ''button''
                        (RegExp ''create account'' ''i''))) 1200,
       WaitFor (First (Locator (Nth (Locator Page ''form'') 0)
                        ''button:has-text("create account")'')) 1200] @
      [WaitFor (First (Locator (Nth (Locator Page ''form'') 0) ''input[type="submit"]'')) 1200,
       Click (First (Locator (Nth (Locator Page ''form'') 0) ''input[type="submit"]''))],
      [Click (First (Locator (Nth (Locator Page ''form'') 0) ''input[type="submit"]''))])\<close>
proof -
  let ?F = "Nth (Locator Page ''form'') 0"
  let ?A = "concat (map (submit_attempts log_in_page ?F) submitTexts)"
  have h1: \<open>?A =
      [Inr (First (GetByRole ?F ''button'' (RegExp ''create account'' ''i''))),
       Inr (First (Locator ?F ''button:has-text("create account")''))] @
      Inr (First (Locator ?F ''input[type="submit"]'')) # drop 3 ?A\<close>
    by (simp add: log_in_page_def scripted_def submitTexts_def submit_attempts_def
          new_RegExp_def)
  have h2: \<open>attempt_loop log_in_page 1200 DoClick
      [Inr (First (GetByRole ?F ''button'' (RegExp ''create account'' ''i''))),
       Inr (First (Locator ?F ''button:has-text("create account")''))] [] =
     (False,
      [WaitFor (First (GetByRole ?F ''button'' (RegExp ''create account'' ''i''))) 1200,
       WaitFor (First (Locator ?F ''button:has-text("create account")'')) 1200], [])\<close>
    by (simp add: log_in_page_def scripted_def attempt_def)
  have h3: \<open>attempt log_in_page 1200 DoClick
               (Inr (First (Locator ?F ''input[type="submit"]''))) [] =
             (True,
              [WaitFor (First (Locator ?F ''input[type="submit"]'')) 1200,
               Click (First (Locator ?F ''input[type="submit"]''))],
              [Click (First (Locator ?F ''input[type="submit"]''))])\<close>
    by (simp add: log_in_page_def scripted_def attempt_def perform_def)
  have h4: "fill_known_fields log_in_page ?F blank fillOrder [] = ([], [])"
    by (rule fill_known_fields_blank)
  from try_submit_first_click [OF h1 h2 h3 h4] h2 show ?thesis
    by (intro conjI) simp_all
qed

section \<open>Where the keyword strategies search\<close>

text \<open>
  Claim C1. The scope is chosen once, before the fields, and the password fallback and
  the submit attempts are built on it. The locators of \<^verbatim>\<open>tryFillByKeywords\<close> are
  not: they are built on the page (\<open>keyword_attempts_page_rooted\<close>). On
  \<open>stray_field_page\<close> the tool chooses form 0 and then fills the field labelled
  \<^verbatim>\<open>First name\<close> through a locator that is not within that form.
\<close>

theorem autoFillForm_fills_outside_scope:
  "fst (choose_form stray_field_page []) = Inr (Nth (Locator Page ''form'') 0) \<and>
   \<not> within (Nth (Locator Page ''form'') 0) (First (GetByLabel Page (RegExp ''first name'' ''i''))) \<and>
   autoFillForm stray_field_page only_first_name False [] =
     (Inr \<lparr>success = True, screenshot_file = Some ''screenshot-1700000000001.png''\<rparr>,
      [Count (Locator Page ''form''),
       Count (Locator (Nth (Locator Page ''form'') 0) ''input, textarea, select''),
       WaitFor (First (GetByLabel Page (RegExp ''first name'' ''i''))) 1500,
       Fill (First (GetByLabel Page (RegExp ''first name'' ''i''))) ''Ada'',
       Screenshot,
       WriteFile ''screenshot-1700000000001.png''],
      [Fill (First (GetByLabel Page (RegExp ''first name'' ''i''))) ''Ada'',
       WriteFile ''screenshot-1700000000001.png''])"
proof -
  have c: "choose_form stray_field_page [] =
             (Inr (Nth (Locator Page ''form'') 0),
              [Count (Locator Page ''form''),
               Count (Locator (Nth (Locator Page ''form'') 0) ''input, textarea, select'')])"
    by (simp add: choose_form_def stray_field_page_def scripted_def forms_def controls_of_def
          score_forms.simps Let_def)
  have l: "localized ''firstName'' =
             ''first name'' # [''firstname'', ''given name'', ''given'', ''first'',
                               ''firstName'', ''first Name'', ''first name'']"
    by (simp add: localized_def fieldToKeywords_def js_string_defs)
  have k: "tryFillByKeywords stray_field_page (localized ''firstName'') ''Ada'' [] =
             (True,
              [WaitFor (First (GetByLabel Page (RegExp ''first name'' ''i''))) 1500,
               Fill (First (GetByLabel Page (RegExp ''first name'' ''i''))) ''Ada''],
              [Fill (First (GetByLabel Page (RegExp ''first name'' ''i''))) ''Ada''])"
    unfolding l
    by (simp add: stray_field_page_def scripted_def keyword_attempts_def new_RegExp_def
          attempt_def perform_def)
  have f: "fill_and_submit stray_field_page (Nth (Locator Page ''form'') 0) only_first_name
             False [] =
             ([WaitFor (First (GetByLabel Page (RegExp ''first name'' ''i''))) 1500,
               Fill (First (GetByLabel Page (RegExp ''first name'' ''i''))) ''Ada''],
              [Fill (First (GetByLabel Page (RegExp ''first name'' ''i''))) ''Ada''])"
    by (simp add: fill_and_submit_def fillOrder_def fill_known_field_def data_get_def
          only_first_name_def k)
  have n: "show_nat 1700000000001 = ''1700000000001''"
    by (simp add: show_nat.simps)
  have s: "take_screenshot stray_field_page
             [Fill (First (GetByLabel Page (RegExp ''first name'' ''i''))) ''Ada''] =
             (Inr \<lparr>success = True, screenshot_file = Some ''screenshot-1700000000001.png''\<rparr>,
              [Screenshot, WriteFile ''screenshot-1700000000001.png''],
              [Fill (First (GetByLabel Page (RegExp ''first name'' ''i''))) ''Ada'',
               WriteFile ''screenshot-1700000000001.png''])"
    by (simp add: take_screenshot_def stray_field_page_def scripted_def n Let_def)
  have a: "autoFillForm stray_field_page only_first_name False [] =
     (Inr \<lparr>success = True, screenshot_file = Some ''screenshot-1700000000001.png''\<rparr>,
      [Count (Locator Page ''form''),
       Count (Locator (Nth (Locator Page ''form'') 0) ''input, textarea, select''),
       WaitFor (First (GetByLabel Page (RegExp ''first name'' ''i''))) 1500,
       Fill (First (GetByLabel Page (RegExp ''first name'' ''i''))) ''Ada'',
       Screenshot,
       WriteFile ''screenshot-1700000000001.png''],
      [Fill (First (GetByLabel Page (RegExp ''first name'' ''i''))) ''Ada'',
       WriteFile ''screenshot-1700000000001.png''])"
    by (simp add: autoFillForm_def c f s)
  have w: "\<not> within (Nth (Locator Page ''form'') 0)
               (First (GetByLabel Page (RegExp ''first name'' ''i'')))"
    by simp
  from c w a show ?thesis by simp
qed

section \<open>\<^verbatim>\<open>fill_field\<close>: the last strategy\<close>

text \<open>
  Claim C4. The six strategies keyed on the label come in the claimed order and the
  loop stops at the first that fills. The seventh, the first
  \<^verbatim>\<open>input[type="password"]\<close>, is tried for every label, not only for a password
  field: on \<open>password_only_page\<close> the label \<^verbatim>\<open>Email\<close> matches nothing, and the
  e-mail address is typed into the password input with success reported.
\<close>

theorem fillField_password_fallback_for_any_label:
  \<open>fillField password_only_page ''Email'' ''ada@example.org'' [] =
     (Inr \<lparr>success = True, screenshot_file = None\<rparr>,
      [WaitFor (First (GetByLabel Page (Str ''Email''))) 3000,
       WaitFor (First (GetByPlaceholder Page (Str ''Email''))) 3000,
       WaitFor (First (GetByRole Page ''textbox'' (RegExp ''Email'' ''i''))) 3000,
       WaitFor (First (Locator Page
                  ''input[aria-label*="Email"],textarea[aria-label*="Email"]'')) 3000,
       WaitFor (First (Locator Page ''input[name*="Email"],textarea[name*="Email"]'')) 3000,
       WaitFor (First (Locator Page ''input[id*="Email"],textarea[id*="Email"]'')) 3000,
       WaitFor (First (Filter (Locator Page ''input[type="password"]''))) 3000,
       Fill (First (Filter (Locator Page ''input[type="password"]''))) ''ada@example.org''],
      [Fill (First (Filter (Locator Page ''input[type="password"]''))) ''ada@example.org''])\<close>
  by (simp add: password_only_page_def scripted_def fillField_def fillField_attempts_def
        new_RegExp_def attempt_def perform_def)

text \<open>The part of the claim that holds: the loop of \<^verbatim>\<open>fill_field\<close> stops at the first
  attempt that fills, and fails with its one error when none does.\<close>

lemma fillField_first_match:
  assumes "fillField_attempts env label = before @ g # after"
    and "attempt_loop env 3000 (DoFill val) before w = (False, cs, w1)"
    and "attempt env 3000 (DoFill val) g w1 = (True, cs', w2)"
  shows "fillField env label val w =
           (Inr \<lparr>success = True, screenshot_file = None\<rparr>, cs @ cs', w2)"
proof -
  have "attempt_loop env 3000 (DoFill val) (before @ g # after) w = (True, cs @ cs', w2)"
    using assms(2,3) by (rule attempt_loop_first_success)
  with assms(1) show ?thesis by (simp add: fillField_def)
qed

end
